theory Spec2Isabelle
  imports Complex_Main
begin

section \<open>Python values, exceptions and string operations\<close>

text \<open>
  The views of \<^verbatim>\<open>fabric_bolt/projects/views.py\<close> are modelled as pure functions.
  An exception is a value of \<open>error\<close>; a function that can raise returns
  \<open>error + 'a\<close> with \<open>Inl\<close> for the exception. \<open>External\<close> stands for an exception
  raised by a call that leaves the program (subprocess, git, file system): it carries
  what \<^verbatim>\<open>str(e)\<close> and \<^verbatim>\<open>e.message\<close> give.
\<close>

datatype error =
    AttributeError string
  | KeyError string
  | MultipleObjectsReturned
  | Http404
  | External string string

fun message :: "error \<Rightarrow> string" where
  "message (AttributeError m) = m"
| "message (KeyError k) = k"
| "message MultipleObjectsReturned = []"
| "message Http404 = []"
| "message (External s m) = m"

fun str_error :: "error \<Rightarrow> string" where
  "str_error (AttributeError m) = m"
| "str_error (KeyError k) = [CHR 0x27] @ k @ [CHR 0x27]"
| "str_error MultipleObjectsReturned = []"
| "str_error Http404 = []"
| "str_error (External s m) = s"

definition and_then :: "'e + 'a \<Rightarrow> ('a \<Rightarrow> 'e + 'b) \<Rightarrow> 'e + 'b" where
  "and_then m f = (case m of Inl e \<Rightarrow> Inl e | Inr x \<Rightarrow> f x)"

text \<open>\<^verbatim>\<open>sep.join(xs)\<close>.\<close>

fun join :: "string \<Rightarrow> string list \<Rightarrow> string" where
  "join sep [] = []"
| "join sep [x] = x"
| "join sep (x # y # ys) = x @ sep @ join sep (y # ys)"

text \<open>
  \<^verbatim>\<open>s.replace(old, new)\<close>: every non-overlapping occurrence of \<open>old\<close>, left to right.
  For an empty \<open>old\<close> Python puts \<open>new\<close> before every character and at the end.
\<close>

function str_replace :: "string \<Rightarrow> string \<Rightarrow> string \<Rightarrow> string" where
  "str_replace old new s =
     (if old = [] then new @ concat (map (\<lambda>c. c # new) s)
      else if s = [] then []
      else if take (length old) s = old
        then new @ str_replace old new (drop (length old) s)
      else hd s # str_replace old new (tl s))"
  by pat_completeness auto
termination
  by (relation "measure (\<lambda>(old, new, s). length s)") auto

declare str_replace.simps [simp del]

definition startswith :: "string \<Rightarrow> string \<Rightarrow> bool" where
  "startswith s p = (take (length p) s = p)"

definition endswith :: "string \<Rightarrow> string \<Rightarrow> bool" where
  "endswith s t = (length t \<le> length s \<and> drop (length s - length t) s = t)"

text \<open>Python dictionaries with string keys, as association lists with distinct keys.\<close>

type_synonym 'v dict = "(string \<times> 'v) list"

fun setitem :: "'v dict \<Rightarrow> string \<Rightarrow> 'v \<Rightarrow> 'v dict" where
  "setitem [] k v = [(k, v)]"
| "setitem ((k', v') # d) k v = (if k' = k then (k, v) # d else (k', v') # setitem d k v)"

definition update_dict :: "'v dict \<Rightarrow> 'v dict \<Rightarrow> 'v dict" where
  "update_dict d other = foldl (\<lambda>acc (k, v). setitem acc k v) d other"

definition keys :: "'v dict \<Rightarrow> string list" where
  "keys d = map fst d"

definition get_item :: "'v dict \<Rightarrow> string \<Rightarrow> error + 'v" where
  "get_item d k = (case map_of d k of None \<Rightarrow> Inl (KeyError k) | Some v \<Rightarrow> Inr v)"

section \<open>Configuration values and their serialization\<close>

text \<open>
  A configuration value is a \<^verbatim>\<open>bool\<close>, a \<^verbatim>\<open>float\<close> or a string: the three data types of
  a Configuration, and the three fields (\<^verbatim>\<open>BooleanField\<close>, \<^verbatim>\<open>FloatField\<close>, \<^verbatim>\<open>CharField\<close>)
  that \<^verbatim>\<open>DeploymentCreate.get_form\<close> builds for prompted values. The type \<open>'f\<close> stands
  for Python's floats, and \<open>str_float\<close> for \<^verbatim>\<open>str\<close> on them.
\<close>

datatype 'f val = VBool bool | VFloat 'f | VStr string

definition dquote :: char where
  "dquote = CHR 0x22"

definition backslash :: char where
  "backslash = CHR 0x5C"

text \<open>The nested function \<^verbatim>\<open>get_key_value_string\<close> of \<^verbatim>\<open>build_command\<close>.\<close>

fun get_key_value_string :: "('f \<Rightarrow> string) \<Rightarrow> string \<Rightarrow> 'f val \<Rightarrow> string" where
  "get_key_value_string str_float key (VBool v) = key @ (if v then [] else ''='')"
| "get_key_value_string str_float key (VFloat x) = key @ ''='' @ str_float x"
| "get_key_value_string str_float key (VStr s) =
     key @ ''='' @ str_replace [dquote] [backslash, dquote] s"


section \<open>The data model the views read and write\<close>

text \<open>
  The models of \<^verbatim>\<open>fabric_bolt/projects/models.py\<close> are not part of the sources at
  hand; the records below hold the fields the views use. A foreign key is the record
  it points to, as the view reads it (\<^verbatim>\<open>self.object.task.name\<close>,
  \<^verbatim>\<open>self.object.stage.hosts\<close>). \<open>hosts\<close> is the result of
  \<^verbatim>\<open>stage.hosts.values_list('name', flat=True)\<close>.
\<close>

datatype status = PENDING | SUCCESS | FAILED

record 'f configuration =
  conf_key :: string
  conf_value :: "'f val"
  prompt_me_for_input :: bool

record 'f project =
  use_repo_fabfile :: bool
  project_configurations :: "'f configuration list"

record 'f stage =
  stage_pk :: nat
  project :: "'f project"
  hosts :: "string list"
  stage_configurations :: "'f configuration list"

record task =
  task_pk :: nat
  name :: string
  description :: string
  times_used :: nat

record 'f deployment =
  pk :: nat
  status :: status
  dep_output :: "string option"
  task :: task
  stage :: "'f stage"
  user :: string

record 'f database =
  stages :: "'f stage list"
  tasks :: "task list"
  deployments :: "'f deployment list"

text \<open>What a request carries along: the database, the messages shown to the user and
  the session entry \<^verbatim>\<open>configuration_values\<close> (empty when the session has none).\<close>

record 'f state =
  db :: "'f database"
  messages :: "string list"
  session :: "'f val dict"

record settings =
  VENV_PATH :: string
  FABFILE_PATH :: string

text \<open>
  A subprocess, as the executor sees it: for each turn of the read loop, what
  \<^verbatim>\<open>process.stdout.readline()\<close> returns or raises, and what \<^verbatim>\<open>process.poll()\<close> returns
  when it is called in that turn (\<open>None\<close> while the process runs, the exit code once
  it has exited). When the list is used up the process writes nothing more and does not
  exit: the executor stays blocked in \<^verbatim>\<open>readline\<close>.
\<close>

type_synonym process = "((error + string) \<times> int option) list"

text \<open>The value of the variable \<^verbatim>\<open>command\<close>: a Python string or a list of strings.\<close>

datatype pyval = PyStr string | PyList "string list"

text \<open>
  Everything outside the program: the cache directory of a project
  (\<^verbatim>\<open>os.path.join(settings.PUBLIC_DIR, '.repo_caches', slugify(project.name))\<close>), whether
  it exists, whether \<^verbatim>\<open>os.makedirs\<close>, \<^verbatim>\<open>Repo.clone_from\<close> and the \<^verbatim>\<open>pip install\<close> call
  raise, what \<^verbatim>\<open>subprocess.check_output\<close> returns for an argument vector, and what
  \<^verbatim>\<open>subprocess.Popen\<close> does with a command.
\<close>

record world =
  repo_dir :: string
  repo_dir_exists :: bool
  makedirs :: "error option"
  clone_from :: "error option"
  pip_install :: "error option"
  check_output :: "string list \<Rightarrow> error + string"
  popen :: "pyval \<Rightarrow> error + process"

section \<open>The task catalog\<close>

definition raising :: "error option \<Rightarrow> error + unit" where
  "raising r = (case r of None \<Rightarrow> Inr () | Some e \<Rightarrow> Inl e)"

text \<open>\<^verbatim>\<open>os.path.join(a, b)\<close> for a relative \<open>b\<close>.\<close>

definition path_join :: "string \<Rightarrow> string \<Rightarrow> string" where
  "path_join a b = (if a = [] \<or> last a = CHR ''/'' then a @ b else a @ ''/'' @ b)"

definition get_fabfile_path :: "settings \<Rightarrow> world \<Rightarrow> 'f project \<Rightarrow> error + string" where
  "get_fabfile_path conf w p =
     (if use_repo_fabfile p then
        and_then (if \<not> repo_dir_exists w
                  then and_then (raising (makedirs w)) (\<lambda>_. raising (clone_from w))
                  else Inr ()) (\<lambda>_.
        and_then (raising (pip_install w)) (\<lambda>_.
        Inr (path_join (repo_dir w) ''fabfile.py'')))
      else Inr (FABFILE_PATH conf))"

text \<open>Whitespace as \<^verbatim>\<open>\s\<close> and \<^verbatim>\<open>str.strip()\<close> take it on byte strings.\<close>

definition is_space :: "char \<Rightarrow> bool" where
  "is_space c = (c = CHR '' '' \<or> c = CHR 0x09 \<or> c = CHR 0x0A \<or> c = CHR 0x0B
                 \<or> c = CHR 0x0C \<or> c = CHR 0x0D)"

text \<open>\<^verbatim>\<open>s.splitlines()\<close>: lines end at \<^verbatim>\<open>\n\<close>, \<^verbatim>\<open>\r\<close> or \<^verbatim>\<open>\r\n\<close>; the first argument
  holds the current line, reversed.\<close>

fun splitlines_from :: "string \<Rightarrow> string \<Rightarrow> string list" where
  "splitlines_from cur [] = (if cur = [] then [] else [rev cur])"
| "splitlines_from cur (c # cs) =
     (if c = CHR 0x0A then rev cur # splitlines_from [] cs
      else if c = CHR 0x0D then
        (case cs of
           [] \<Rightarrow> [rev cur]
         | d # ds \<Rightarrow> if d = CHR 0x0A then rev cur # splitlines_from [] ds
                    else rev cur # splitlines_from [] (d # ds))
      else splitlines_from (c # cur) cs)"

definition splitlines :: "string \<Rightarrow> string list" where
  "splitlines s = splitlines_from [] s"

definition strip :: "string \<Rightarrow> string" where
  "strip s = rev (dropWhile is_space (rev (dropWhile is_space s)))"

text \<open>
  \<^verbatim>\<open>re.match(r'^\s*([^\s]+)\s*(.*)$', line)\<close> on a line without line breaks: the two
  groups, or \<open>None\<close> when the line holds nothing but whitespace.
\<close>

definition match_line :: "string \<Rightarrow> (string \<times> string) option" where
  "match_line line =
     (let rest = dropWhile is_space line;
          nm = takeWhile (\<lambda>c. \<not> is_space c) rest;
          desc = dropWhile is_space (dropWhile (\<lambda>c. \<not> is_space c) rest)
      in if nm = [] then None else Some (nm, desc))"

text \<open>The loop over the lines of \<^verbatim>\<open>fab --list\<close>, inside the \<^verbatim>\<open>try\<close>.\<close>

fun read_tasks :: "world \<Rightarrow> string \<Rightarrow> string list \<Rightarrow> string dict \<Rightarrow> error + string dict" where
  "read_tasks w fabfile_path [] dict_with_docs = Inr dict_with_docs"
| "read_tasks w fabfile_path (line # lines) dict_with_docs =
     (case match_line line of
        None \<Rightarrow> read_tasks w fabfile_path lines dict_with_docs
      | Some (nm, desc) \<Rightarrow>
          if endswith desc ''...'' then
            and_then (check_output w [''fab'', ''--display='' @ nm, ''--fabfile='' @ fabfile_path])
              (\<lambda>out.
                 read_tasks w fabfile_path lines
                   (setitem dict_with_docs nm
                      (case splitlines out of
                         l0 # l1 # l2 # ls \<Rightarrow> strip l2
                       | _ \<Rightarrow> desc)))
          else read_tasks w fabfile_path lines (setitem dict_with_docs nm desc))"

definition list_tasks :: "settings \<Rightarrow> world \<Rightarrow> 'f project \<Rightarrow> error + string dict" where
  "list_tasks conf w p =
     and_then (get_fabfile_path conf w p) (\<lambda>fabfile_path.
     and_then (check_output w [''fab'', ''--list'', ''--fabfile='' @ fabfile_path]) (\<lambda>out.
     read_tasks w fabfile_path (drop 2 (splitlines out)) []))"

text \<open>\<^verbatim>\<open>get_fabric_tasks(request, project)\<close>: the mapping, and the messages of the request
  after the call.\<close>

definition get_fabric_tasks ::
  "settings \<Rightarrow> world \<Rightarrow> string list \<Rightarrow> 'f project \<Rightarrow> string dict \<times> string list" where
  "get_fabric_tasks conf w msgs p =
     (case list_tasks conf w p of
        Inl e \<Rightarrow> ([], msgs @ [''Error loading fabfile: '' @ str_error e])
      | Inr dict_with_docs \<Rightarrow> (dict_with_docs, msgs))"

section \<open>The command builder\<close>

definition fabric_special_options :: "string list" where
  "fabric_special_options =
     [''no_agent'', ''forward-agent'', ''config'', ''disable-known-hosts'', ''keepalive'',
      ''password'', ''parallel'', ''no-pty'', ''reject-unknown-hosts'', ''skip-bad-hosts'',
      ''timeout'', ''command-timeout'', ''user'', ''warn-only'', ''pool-size'']"

text \<open>\<^verbatim>\<open>{x.replace('-', '_'): x for x in fabric_special_options}\<close>.\<close>

definition command_to_config :: "string dict" where
  "command_to_config =
     foldl (\<lambda>d x. setitem d (str_replace ''-'' ''_'' x) x) [] fabric_special_options"

text \<open>
  Modelled from the spec: \<^verbatim>\<open>Stage.get_configurations\<close> (it is defined in
  \<^verbatim>\<open>fabric_bolt/projects/models.py\<close>, which is not among the sources). The spec's
  ConfigResolver: all project-level configurations not flagged prompt-me, overridden by
  all stage-level configurations not flagged prompt-me that share the same key.
\<close>

definition configurations_dict :: "'f configuration list \<Rightarrow> 'f val dict" where
  "configurations_dict confs =
     foldl (\<lambda>d c. setitem d (conf_key c) (conf_value c)) []
       (filter (\<lambda>c. \<not> prompt_me_for_input c) confs)"

definition get_configurations :: "'f stage \<Rightarrow> 'f val dict" where
  "get_configurations stg =
     update_dict (configurations_dict (project_configurations (project stg)))
       (configurations_dict (stage_configurations stg))"

text \<open>Lines 374 to 376: the stage's configurations, updated with the prompted values that
  the session holds.\<close>

definition merged_config :: "'f stage \<Rightarrow> 'f val dict \<Rightarrow> 'f val dict" where
  "merged_config stg configuration_values =
     update_dict (get_configurations stg) configuration_values"

text \<open>
  \<^verbatim>\<open>command.append(x)\<close>. Python looks the method up before it evaluates the argument: a
  string has no \<^verbatim>\<open>append\<close>, whatever the argument would have been.
\<close>

definition no_append :: error where
  "no_append =
     AttributeError ([CHR 0x27] @ ''str'' @ [CHR 0x27] @ '' object has no attribute ''
                     @ [CHR 0x27] @ ''append'' @ [CHR 0x27])"

fun append :: "pyval \<Rightarrow> error + string \<Rightarrow> error + pyval" where
  "append (PyStr s) x = Inl no_append"
| "append (PyList xs) (Inl e) = Inl e"
| "append (PyList xs) (Inr x) = Inr (PyList (xs @ [x]))"

text \<open>
  \<^verbatim>\<open>list(s)\<close> for a set \<open>s\<close>: Python fixes no order. \<open>set_order\<close> is the interpreter's
  choice: from the elements the set was built from to the order in which it yields them.
\<close>

definition normal_options :: "(string list \<Rightarrow> string list) \<Rightarrow> 'v dict \<Rightarrow> string list" where
  "normal_options set_order config =
     set_order (filter (\<lambda>k. k \<notin> set (keys command_to_config)) (remdups (keys config)))"

definition special_options :: "(string list \<Rightarrow> string list) \<Rightarrow> 'v dict \<Rightarrow> string list" where
  "special_options set_order config =
     set_order (filter (\<lambda>k. k \<in> set (keys command_to_config)) (remdups (keys config)))"

text \<open>\<^verbatim>\<open>get_key_value_string(key, config[key]) for key in normal_options\<close>.\<close>

fun key_value_strings ::
  "('f \<Rightarrow> string) \<Rightarrow> 'f val dict \<Rightarrow> string list \<Rightarrow> error + string list" where
  "key_value_strings str_float config [] = Inr []"
| "key_value_strings str_float config (k # ks) =
     and_then (get_item config k) (\<lambda>v.
     and_then (key_value_strings str_float config ks) (\<lambda>rest.
     Inr (get_key_value_string str_float k v # rest)))"

text \<open>The loop over \<^verbatim>\<open>special_options\<close>.\<close>

fun append_special ::
  "('f \<Rightarrow> string) \<Rightarrow> 'f val dict \<Rightarrow> pyval \<Rightarrow> string list \<Rightarrow> error + pyval" where
  "append_special str_float config command [] = Inr command"
| "append_special str_float config command (k # ks) =
     and_then
       (append command
          (and_then (get_item command_to_config k) (\<lambda>flag.
           and_then (get_item config k) (\<lambda>v.
           Inr (''--'' @ get_key_value_string str_float flag v)))))
       (\<lambda>command'. append_special str_float config command' ks)"

text \<open>
  \<^verbatim>\<open>build_command\<close> from line 369 on, for a given value of \<^verbatim>\<open>command\<close>. \<open>fabfile\<close> is
  what \<^verbatim>\<open>get_fabfile_path(self.object.stage.project)\<close> returns or raises.
\<close>

definition build_from ::
  "(string list \<Rightarrow> string list) \<Rightarrow> ('f \<Rightarrow> string) \<Rightarrow> (error + string) \<Rightarrow> 'f val dict
     \<Rightarrow> 'f stage \<Rightarrow> pyval \<Rightarrow> error + pyval" where
  "build_from set_order str_float fabfile configuration_values stg command =
     and_then
       (if hosts stg \<noteq> [] then append command (Inr (''--hosts='' @ join '','' (hosts stg)))
        else Inr command)
       (\<lambda>c1.
          let config = merged_config stg configuration_values;
              normal = normal_options set_order config;
              special = special_options set_order config
          in and_then
               (if normal \<noteq> [] then
                  and_then (append c1 (Inr ''--set'')) (\<lambda>c.
                    append c (and_then (key_value_strings str_float config normal)
                                (\<lambda>xs. Inr (join '','' xs))))
                else Inr c1)
               (\<lambda>c2.
                  and_then (append_special str_float config c2 special) (\<lambda>c3.
                    append c3 (and_then fabfile (\<lambda>p. Inr (''--fabfile='' @ p))))))"

text \<open>Lines 365 to 367: \<^verbatim>\<open>command\<close> starts as a string.\<close>

definition initial_command :: "settings \<Rightarrow> string \<Rightarrow> pyval" where
  "initial_command conf task_name =
     PyStr (VENV_PATH conf @ ''fab '' @ (''-f '' @ FABFILE_PATH conf @ '' '') @ task_name
            @ '' --abort-on-prompts'')"

definition build_command ::
  "(string list \<Rightarrow> string list) \<Rightarrow> ('f \<Rightarrow> string) \<Rightarrow> settings \<Rightarrow> world \<Rightarrow> 'f val dict
     \<Rightarrow> 'f deployment \<Rightarrow> error + pyval" where
  "build_command set_order str_float conf w configuration_values obj =
     build_from set_order str_float (get_fabfile_path conf w (project (stage obj)))
       configuration_values (stage obj) (initial_command conf (name (task obj)))"

section \<open>The deployment executor\<close>

text \<open>
  What a run does, in order: a unit yielded to the response, the subprocess spawned, the
  exit of the subprocess seen (\<^verbatim>\<open>poll()\<close> returned its exit code), the deployment saved.
\<close>

datatype 'f event =
    Yield string
  | Spawn pyval
  | Exited int
  | Save "'f deployment"

text \<open>\<^verbatim>\<open>' '*1024\<close>.\<close>

definition padding :: string where
  "padding = replicate 1024 (CHR '' '')"

definition line_unit :: "string \<Rightarrow> string" where
  \<open>line_unit nextline =
     ''<span style="color:rgb(200, 200, 200);font-size: 14px;font-family: 'Helvetica Neue', Helvetica, Arial, sans-serif;">''
     @ nextline @ '' </span><br /> '' @ padding\<close>

definition finished_unit :: "string \<Rightarrow> string" where
  \<open>finished_unit s =
     ''<span id="finished" style="display:none;">'' @ s @ ''</span> '' @ padding\<close>

text \<open>Line 436: \<^verbatim>\<open>'...failed</span> {}'.format('*1024')\<close>.\<close>

definition failed_unit :: string where
  \<open>failed_unit = ''<span id="finished" style="display:none;">failed</span> '' @ ''*1024''\<close>

datatype loop_end = Break int string | Raise error | Blocked

text \<open>The \<^verbatim>\<open>while True\<close> loop: the events of the loop and how it ends. \<open>Break rc out\<close>: the
  loop is left with \<^verbatim>\<open>process.returncode = rc\<close> and \<^verbatim>\<open>all_output = out\<close>.\<close>

fun read_loop :: "process \<Rightarrow> string \<Rightarrow> 'f event list \<times> loop_end" where
  "read_loop [] all_output = ([], Blocked)"
| "read_loop ((Inl e, p) # rest) all_output = ([], Raise e)"
| "read_loop ((Inr nextline, p) # rest) all_output =
     (case (if nextline = [] then p else None) of
        Some rc \<Rightarrow> ([Exited rc], Break rc all_output)
      | None \<Rightarrow>
          (case read_loop rest (all_output @ nextline) of
             (evs, r) \<Rightarrow> (Yield (line_unit nextline) # evs, r)))"

text \<open>The \<^verbatim>\<open>except Exception as e\<close> block.\<close>

definition on_exception :: "error \<Rightarrow> 'f event list" where
  "on_exception e =
     [Yield (line_unit (''An error occurred: '' @ message e)), Yield failed_unit]"

text \<open>
  Lines 415 to 436 for a process that \<^verbatim>\<open>Popen\<close> returned. \<open>status_text\<close> is how a status
  prints (the constants \<^verbatim>\<open>PENDING\<close>, \<^verbatim>\<open>SUCCESS\<close>, \<^verbatim>\<open>FAILED\<close> of the Deployment model).
\<close>

definition stream_process ::
  "(status \<Rightarrow> string) \<Rightarrow> process \<Rightarrow> 'f deployment \<Rightarrow> 'f event list" where
  "stream_process status_text proc obj =
     (case read_loop proc [] of
        (evs, Break rc all_output) \<Rightarrow>
          (let obj1 = obj\<lparr>status := (if rc = 0 then SUCCESS else FAILED)\<rparr>
           in evs @ [Yield (finished_unit (status_text (status obj1))),
                     Save (obj1\<lparr>dep_output := Some all_output\<rparr>)])
      | (evs, Raise e) \<Rightarrow> evs @ on_exception e
      | (evs, Blocked) \<Rightarrow> evs)"

definition output_stream_generator ::
  "(string list \<Rightarrow> string list) \<Rightarrow> ('f \<Rightarrow> string) \<Rightarrow> (status \<Rightarrow> string) \<Rightarrow> settings \<Rightarrow> world
     \<Rightarrow> 'f state \<Rightarrow> 'f deployment \<Rightarrow> 'f event list" where
  "output_stream_generator set_order str_float status_text conf w st obj =
     (if name (task obj)
           \<notin> set (keys (fst (get_fabric_tasks conf w (messages st) (project (stage obj)))))
      then []
      else
        (case build_command set_order str_float conf w (session st) obj of
           Inl e \<Rightarrow> on_exception e
         | Inr command \<Rightarrow>
             (case popen w command of
                Inl e \<Rightarrow> on_exception e
              | Inr proc \<Rightarrow> Spawn command # stream_process status_text proc obj)))"

text \<open>\<^verbatim>\<open>get_object_or_404(models.Deployment, pk=..., status=models.Deployment.PENDING)\<close>.\<close>

definition get_pending :: "'f database \<Rightarrow> nat \<Rightarrow> error + 'f deployment" where
  "get_pending d i =
     (case filter (\<lambda>x. pk x = i \<and> status x = PENDING) (deployments d) of
        [] \<Rightarrow> Inl Http404
      | [x] \<Rightarrow> Inr x
      | x # y # ys \<Rightarrow> Inl MultipleObjectsReturned)"

text \<open>\<^verbatim>\<open>DeploymentOutputStream.get\<close>: the events of the streamed response.\<close>

definition get ::
  "(string list \<Rightarrow> string list) \<Rightarrow> ('f \<Rightarrow> string) \<Rightarrow> (status \<Rightarrow> string) \<Rightarrow> settings \<Rightarrow> world
     \<Rightarrow> 'f state \<Rightarrow> nat \<Rightarrow> error + 'f event list" where
  "get set_order str_float status_text conf w st i =
     and_then (get_pending (db st) i) (\<lambda>obj.
       Inr (output_stream_generator set_order str_float status_text conf w st obj))"

text \<open>\<^verbatim>\<open>obj.save()\<close> of a deployment that has a row: the row with its key is replaced.\<close>

definition save_deployment :: "'f database \<Rightarrow> 'f deployment \<Rightarrow> 'f database" where
  "save_deployment d obj =
     d\<lparr>deployments := map (\<lambda>x. if pk x = pk obj then obj else x) (deployments d)\<rparr>"

text \<open>The database after the events of a run.\<close>

fun db_after :: "'f database \<Rightarrow> 'f event list \<Rightarrow> 'f database" where
  "db_after d [] = d"
| "db_after d (Save obj # evs) = db_after (save_deployment d obj) evs"
| "db_after d (ev # evs) = db_after d evs"

definition saves :: "'f event list \<Rightarrow> 'f deployment list" where
  "saves evs = concat (map (\<lambda>ev. case ev of Save obj \<Rightarrow> [obj] | _ \<Rightarrow> []) evs)"

definition yields :: "'f event list \<Rightarrow> string list" where
  "yields evs = concat (map (\<lambda>ev. case ev of Yield u \<Rightarrow> [u] | _ \<Rightarrow> []) evs)"

definition spawns :: "'f event list \<Rightarrow> pyval list" where
  "spawns evs = concat (map (\<lambda>ev. case ev of Spawn c \<Rightarrow> [c] | _ \<Rightarrow> []) evs)"

section \<open>Creating a deployment\<close>

text \<open>A request to \<^verbatim>\<open>DeploymentCreate\<close>: a \<^verbatim>\<open>GET\<close>, or a \<^verbatim>\<open>POST\<close> with the form's
  \<^verbatim>\<open>cleaned_data\<close> (\<open>None\<close> when the form is not valid).\<close>

datatype 'f request = GET | POST "'f val dict option"

datatype response = Redirect_stage_view | Form_page | Redirect_deployment_detail nat

text \<open>The key the database gives a new row.\<close>

definition fresh_pk :: "nat list \<Rightarrow> nat" where
  "fresh_pk pks = Suc (fold max pks 0)"

text \<open>\<^verbatim>\<open>get_object_or_404(models.Stage, pk=int(kwargs['pk']))\<close>.\<close>

definition get_stage :: "'f database \<Rightarrow> nat \<Rightarrow> error + 'f stage" where
  "get_stage d i =
     (case filter (\<lambda>x. stage_pk x = i) (stages d) of
        [] \<Rightarrow> Inl Http404
      | [x] \<Rightarrow> Inr x
      | x # y # ys \<Rightarrow> Inl MultipleObjectsReturned)"

text \<open>
  \<^verbatim>\<open>models.Task.objects.get_or_create(name=n, defaults={'description': d})\<close>: the task,
  whether it was created, and the table afterwards. \<open>baseline\<close> is the default of
  \<^verbatim>\<open>times_used\<close> in the Task model.
\<close>

definition get_or_create ::
  "nat \<Rightarrow> task list \<Rightarrow> string \<Rightarrow> string \<Rightarrow> error + (task \<times> bool \<times> task list)" where
  "get_or_create baseline ts n d =
     (case filter (\<lambda>x. name x = n) ts of
        [] \<Rightarrow>
          (let t = \<lparr>task_pk = fresh_pk (map task_pk ts), name = n, description = d,
                    times_used = baseline\<rparr>
           in Inr (t, True, ts @ [t]))
      | [x] \<Rightarrow> Inr (x, False, ts)
      | x # y # ys \<Rightarrow> Inl MultipleObjectsReturned)"

definition save_task :: "task list \<Rightarrow> task \<Rightarrow> task list" where
  "save_task ts t = map (\<lambda>x. if task_pk x = task_pk t then t else x) ts"

text \<open>Lines 315 to 319 of \<^verbatim>\<open>form_valid\<close>: the task of the deployment and the table
  afterwards.\<close>

definition upsert_task ::
  "nat \<Rightarrow> task list \<Rightarrow> string \<Rightarrow> string \<Rightarrow> error + (task \<times> task list)" where
  "upsert_task baseline ts task_name task_description =
     and_then (get_or_create baseline ts task_name task_description) (\<lambda>(t, created, ts').
       if \<not> created then
         (let t' = t\<lparr>times_used := times_used t + 1, description := task_description\<rparr>
          in Inr (t', save_task ts' t'))
       else Inr (t, ts'))"

definition configuration_prefix :: string where
  "configuration_prefix = ''configuration_value_for_''"

text \<open>A new Deployment is \<^verbatim>\<open>PENDING\<close> and has no output (the defaults of the model).\<close>

definition form_valid ::
  "nat \<Rightarrow> 'f state \<Rightarrow> 'f stage \<Rightarrow> string \<Rightarrow> string \<Rightarrow> string \<Rightarrow> 'f val dict
     \<Rightarrow> error + (response \<times> 'f state)" where
  "form_valid baseline st stg task_name task_description usr cleaned_data =
     and_then (upsert_task baseline (tasks (db st)) task_name task_description) (\<lambda>(t, ts).
       let obj = \<lparr>pk = fresh_pk (map pk (deployments (db st))), status = PENDING,
                  dep_output = None, task = t, stage = stg, user = usr\<rparr>;
           configuration_values =
             foldl (\<lambda>d (k, v).
                      if startswith k configuration_prefix
                      then setitem d (str_replace configuration_prefix [] k) v else d)
               [] cleaned_data
       in Inr (Redirect_deployment_detail (pk obj),
               st\<lparr>db := (db st)\<lparr>tasks := ts, deployments := deployments (db st) @ [obj]\<rparr>,
                   session := configuration_values\<rparr>))"

text \<open>
  \<^verbatim>\<open>DeploymentCreate.dispatch\<close>. \<^verbatim>\<open>task_name not in all_tasks\<close> and
  \<^verbatim>\<open>all_tasks.get(task_name, None)\<close> are one lookup here. The base class then shows the
  form, shows it again when the posted form is not valid, or calls \<^verbatim>\<open>form_valid\<close>.
\<close>

definition dispatch ::
  "nat \<Rightarrow> settings \<Rightarrow> world \<Rightarrow> 'f state \<Rightarrow> nat \<Rightarrow> string \<Rightarrow> string \<Rightarrow> 'f request
     \<Rightarrow> error + (response \<times> 'f state)" where
  "dispatch baseline conf w st i task_name usr req =
     and_then (get_stage (db st) i) (\<lambda>stg.
       case get_fabric_tasks conf w (messages st) (project stg) of
         (all_tasks, msgs) \<Rightarrow>
           (case map_of all_tasks task_name of
              None \<Rightarrow>
                Inr (Redirect_stage_view,
                     st\<lparr>messages :=
                          msgs @ [[dquote] @ task_name @ [dquote] @ '' is not a valid task.'']\<rparr>)
            | Some task_description \<Rightarrow>
                (case req of
                   GET \<Rightarrow> Inr (Form_page, st\<lparr>messages := msgs\<rparr>)
                 | POST None \<Rightarrow> Inr (Form_page, st\<lparr>messages := msgs\<rparr>)
                 | POST (Some cleaned_data) \<Rightarrow>
                     form_valid baseline (st\<lparr>messages := msgs\<rparr>) stg task_name
                       task_description usr cleaned_data)))"

section \<open>Inputs of the scenarios\<close>

text \<open>Scenario A: the configuration \<^verbatim>\<open>{"branch": "main", "dry_run": True, "timeout": 30.5}\<close>
  on a stage without hosts; \<open>str_a\<close> prints the one float of the scenario.\<close>

definition scenario_a :: "real stage" where
  "scenario_a =
     \<lparr>stage_pk = 1,
      project = \<lparr>use_repo_fabfile = False, project_configurations = []\<rparr>,
      hosts = [],
      stage_configurations =
        [\<lparr>conf_key = ''branch'', conf_value = VStr ''main'', prompt_me_for_input = False\<rparr>,
         \<lparr>conf_key = ''dry_run'', conf_value = VBool True, prompt_me_for_input = False\<rparr>,
         \<lparr>conf_key = ''timeout'', conf_value = VFloat 30.5, prompt_me_for_input = False\<rparr>]\<rparr>"

definition str_a :: "real \<Rightarrow> string" where
  "str_a x = (if x = 30.5 then ''30.5'' else ''nan'')"

text \<open>A deployment of the task \<^verbatim>\<open>deploy\<close> on that stage, the settings, and a world in which
  \<^verbatim>\<open>fab --list\<close> knows the task and the spawned process prints one line and exits with 0.\<close>

definition deployment_a :: "real deployment" where
  "deployment_a =
     \<lparr>pk = 1, status = PENDING, dep_output = None,
      task = \<lparr>task_pk = 1, name = ''deploy'', description = ''Deploy the app'', times_used = 1\<rparr>,
      stage = scenario_a, user = ''admin''\<rparr>"

definition settings_a :: settings where
  "settings_a = \<lparr>VENV_PATH = [], FABFILE_PATH = ''fabfile.py''\<rparr>"

definition fab_list_a :: string where
  "fab_list_a = ''Available commands:'' @ [CHR 0x0A, CHR 0x0A]
                @ ''    deploy  Deploy the app'' @ [CHR 0x0A]"

definition process_a :: process where
  "process_a = [(Inr (''Done.'' @ [CHR 0x0A]), None), (Inr [], Some 0)]"

definition world_a :: world where
  "world_a =
     \<lparr>repo_dir = ''.repo_caches/app'', repo_dir_exists = True, makedirs = None,
      clone_from = None, pip_install = None,
      check_output = (\<lambda>argv. Inr fab_list_a),
      popen = (\<lambda>command. Inr process_a)\<rparr>"

text \<open>Modelled from the spec: how a status prints in the sentinel (the constants of the
  Deployment model are not among the sources). Spec 6: the literal terminal status string
  \<^verbatim>\<open>SUCCESS\<close> or \<^verbatim>\<open>FAILED\<close>.\<close>

definition status_a :: "status \<Rightarrow> string" where
  "status_a s =
     (case s of PENDING \<Rightarrow> ''PENDING'' | SUCCESS \<Rightarrow> ''SUCCESS'' | FAILED \<Rightarrow> ''FAILED'')"

definition state_a :: "real state" where
  "state_a =
     \<lparr>db = \<lparr>stages = [scenario_a], tasks = [task deployment_a],
             deployments = [deployment_a]\<rparr>,
      messages = [], session = []\<rparr>"

text \<open>The same world without the \<^verbatim>\<open>fab\<close> binary: \<^verbatim>\<open>check_output\<close> raises.\<close>

definition world_b :: world where
  "world_b = world_a\<lparr>check_output :=
     (\<lambda>argv. Inl (External ''[Errno 2] No such file or directory'' []))\<rparr>"

text \<open>Scenario C: the task \<^verbatim>\<open>deploy\<close> is gone from the fabfile when the run starts.\<close>

definition fab_list_c :: string where
  "fab_list_c = ''Available commands:'' @ [CHR 0x0A, CHR 0x0A]
                @ ''    restart  Restart the app'' @ [CHR 0x0A]"

definition world_c :: world where
  "world_c = world_a\<lparr>check_output := (\<lambda>argv. Inr fab_list_c)\<rparr>"

text \<open>A stage whose project and stage both configure \<^verbatim>\<open>branch\<close> and \<^verbatim>\<open>user\<close>, and a
  prompted value for \<^verbatim>\<open>user\<close>.\<close>

definition stage_b :: "real stage" where
  "stage_b =
     \<lparr>stage_pk = 2,
      project = \<lparr>use_repo_fabfile = False,
                 project_configurations =
                   [\<lparr>conf_key = ''branch'', conf_value = VStr ''dev'', prompt_me_for_input = False\<rparr>,
                    \<lparr>conf_key = ''user'', conf_value = VStr ''root'', prompt_me_for_input = False\<rparr>]\<rparr>,
      hosts = [''web1'', ''web2''],
      stage_configurations =
        [\<lparr>conf_key = ''branch'', conf_value = VStr ''main'', prompt_me_for_input = False\<rparr>,
         \<lparr>conf_key = ''user'', conf_value = VStr ''deploy'', prompt_me_for_input = False\<rparr>]\<rparr>"

definition prompted_b :: "real val dict" where
  "prompted_b = [(''user'', VStr ''admin'')]"

section \<open>Serialization of one option\<close>

lemma str_replace_char:
  "str_replace [c] new s = concat (map (\<lambda>x. if x = c then new else [x]) s)"
proof (induction s)
  case Nil
  show ?case by (simp add: str_replace.simps)
next
  case (Cons x xs)
  show ?case
  proof (cases "x = c")
    case True
    then show ?thesis using Cons
      by (subst str_replace.simps) simp
  next
    case False
    then show ?thesis using Cons
      by (subst str_replace.simps) simp
  qed
qed

lemma str_replace_absent:
  "c \<notin> set s \<Longrightarrow> str_replace [c] new s = s"
  by (induction s) (auto simp: str_replace_char)

text \<open>
  C4. The serialization of a key and its value: the bare key for \<open>True\<close>; the key and a
  trailing equals sign for \<open>False\<close>; \<open>key=\<close> and the number as \<^verbatim>\<open>str\<close> prints it, with no
  quotes added, for a float; and for a string \<open>key=\<close> and the value in which every
  double quote has become backslash, double quote, and every other character is kept.
\<close>

theorem get_key_value_string_cases:
  "get_key_value_string str_float key (VBool True) = key
   \<and> get_key_value_string str_float key (VBool False) = key @ ''=''
   \<and> get_key_value_string str_float key (VFloat x) = key @ ''='' @ str_float x
   \<and> get_key_value_string str_float key (VStr s) =
       key @ ''='' @ concat (map (\<lambda>c. if c = dquote then [backslash, dquote] else [c]) s)"
  by (simp add: str_replace_char)

section \<open>The command builder never returns\<close>

lemma append_special_str:
  "append_special str_float config (PyStr s) ks = (if ks = [] then Inr (PyStr s) else Inl no_append)"
  by (cases ks) (simp_all add: and_then_def)

lemma build_from_str:
  "build_from set_order str_float fabfile configuration_values stg (PyStr s) = Inl no_append"
  by (simp add: build_from_def and_then_def Let_def append_special_str)

lemma build_command_str:
  "build_command set_order str_float conf w configuration_values obj = Inl no_append"
  by (simp add: build_command_def initial_command_def build_from_str)

text \<open>
  C2. Whatever the task, the hosts and the configurations, \<^verbatim>\<open>build_command\<close> raises: its
  \<^verbatim>\<open>command\<close> is a string, and it ends with an \<^verbatim>\<open>append\<close> on it. So the executor, when
  the task is in the catalog, takes the exceptional path, and no run spawns a subprocess.
\<close>

theorem build_command_always_raises:
  "build_command set_order str_float conf w configuration_values obj = Inl no_append
   \<and> output_stream_generator set_order str_float status_text conf w st obj =
       (if name (task obj)
             \<in> set (keys (fst (get_fabric_tasks conf w (messages st) (project (stage obj)))))
        then on_exception no_append else [])
   \<and> spawns (output_stream_generator set_order str_float status_text conf w st obj) = []"
  by (simp add: output_stream_generator_def build_command_str spawns_def on_exception_def)


section \<open>What the builder appends to a list\<close>

lemma get_item_present:
  "k \<in> set (keys d) \<Longrightarrow> get_item d k = Inr (the (map_of d k))"
  by (auto simp: get_item_def keys_def map_of_eq_None_iff split: option.splits)

lemma key_value_strings_present:
  "set ks \<subseteq> set (keys config) \<Longrightarrow>
   key_value_strings str_float config ks =
     Inr (map (\<lambda>k. get_key_value_string str_float k (the (map_of config k))) ks)"
  by (induction ks) (simp_all add: and_then_def get_item_present)

lemma append_special_list:
  "set ks \<subseteq> set (keys config) \<Longrightarrow> set ks \<subseteq> set (keys command_to_config) \<Longrightarrow>
   append_special str_float config (PyList c) ks =
     Inr (PyList (c @ map (\<lambda>k. ''--'' @ get_key_value_string str_float
                                 (the (map_of command_to_config k)) (the (map_of config k))) ks))"
  by (induction ks arbitrary: c) (simp_all add: and_then_def get_item_present)

lemma normal_options_subset:
  "\<forall>xs. set (set_order xs) = set xs \<Longrightarrow> set (normal_options set_order config) \<subseteq> set (keys config)"
  by (auto simp: normal_options_def)

lemma special_options_subset:
  "\<forall>xs. set (set_order xs) = set xs \<Longrightarrow>
   set (special_options set_order config) \<subseteq> set (keys config) \<inter> set (keys command_to_config)"
  by (auto simp: special_options_def)

lemma build_from_on_list:
  assumes ord: "\<forall>xs. set (set_order xs) = set xs"
    and normal: "normal_options set_order (merged_config stg configuration_values) \<noteq> []"
  shows "set (normal_options set_order (merged_config stg configuration_values))
           \<subseteq> set (keys (merged_config stg configuration_values))
    \<and> build_from set_order str_float (Inr p) configuration_values stg (PyList c) =
      Inr (PyList
        (c @ (if hosts stg = [] then [] else [''--hosts='' @ join '','' (hosts stg)])
           @ [''--set'',
              join '','' (map (\<lambda>k. get_key_value_string str_float k
                                     (the (map_of (merged_config stg configuration_values) k)))
                            (normal_options set_order (merged_config stg configuration_values)))]
           @ map (\<lambda>k. ''--'' @ get_key_value_string str_float
                                 (the (map_of command_to_config k))
                                 (the (map_of (merged_config stg configuration_values) k)))
               (special_options set_order (merged_config stg configuration_values))
           @ [''--fabfile='' @ p]))"
proof -
  let ?config = "merged_config stg configuration_values"
  have n: "set (normal_options set_order ?config) \<subseteq> set (keys ?config)"
    using ord by (rule normal_options_subset)
  have s: "set (special_options set_order ?config) \<subseteq> set (keys ?config)"
    "set (special_options set_order ?config) \<subseteq> set (keys command_to_config)"
    using special_options_subset [OF ord, of ?config] by auto
  show ?thesis
    using n normal
    by (simp add: build_from_def Let_def and_then_def key_value_strings_present [OF n]
        append_special_list [OF s])
qed


lemma keys_command_to_config:
  "keys command_to_config =
     [''no_agent'', ''forward_agent'', ''config'', ''disable_known_hosts'', ''keepalive'',
      ''password'', ''parallel'', ''no_pty'', ''reject_unknown_hosts'', ''skip_bad_hosts'',
      ''timeout'', ''command_timeout'', ''user'', ''warn_only'', ''pool_size'']"
  by code_simp

lemma command_to_config_timeout: "map_of command_to_config ''timeout'' = Some ''timeout''"
  by code_simp

lemma merged_a: "merged_config scenario_a [] =
   [(''branch'', VStr ''main''), (''dry_run'', VBool True), (''timeout'', VFloat 30.5)]"
  by (simp add: merged_config_def get_configurations_def configurations_dict_def update_dict_def scenario_a_def)

lemma keys_merged_a: "keys (merged_config scenario_a []) = [''branch'', ''dry_run'', ''timeout'']"
  by (simp add: merged_a keys_def)

lemma normal_a: "normal_options (\<lambda>xs. xs) (merged_config scenario_a []) = [''branch'', ''dry_run'']"
  by (simp add: keys_merged_a normal_options_def keys_command_to_config)

lemma special_a: "special_options (\<lambda>xs. xs) (merged_config scenario_a []) = [''timeout'']"
  by (simp add: keys_merged_a special_options_def keys_command_to_config)

lemma hosts_a: "hosts scenario_a = []"
  by (simp add: scenario_a_def)


lemma scenario_a_on_list:
  "build_from (\<lambda>xs. xs) str_a (Inr ''fabfile.py'') [] scenario_a (PyList []) =
     Inr (PyList [''--set'', ''branch=main,dry_run'', ''--timeout=30.5'',
                  ''--fabfile=fabfile.py''])"
proof -
  have ord: "\<forall>xs. set ((\<lambda>xs. xs) xs) = set xs" by simp
  have n: "normal_options (\<lambda>xs. xs) (merged_config scenario_a []) \<noteq> []"
    by (simp add: normal_a)
  note build_from_on_list [OF ord n, of str_a "''fabfile.py''" "[]", unfolded normal_a special_a]
  then show ?thesis
    by (simp add: merged_a hosts_a command_to_config_timeout str_a_def str_replace_char
        dquote_def)
qed

text \<open>
  C3, as the code has it. With normal options present, on a \<^verbatim>\<open>command\<close> that is a list,
  every normal option is serialized by \<^verbatim>\<open>get_key_value_string\<close>, the results are joined
  with commas in the order the option set yields them, and the builder appends two
  arguments, \<^verbatim>\<open>--set\<close> and the joined string; the special options follow, one argument
  each, then \<^verbatim>\<open>--fabfile=\<close>. Every key that is looked up is a key of the configuration.
\<close>

theorem set_argument_on_list:
  assumes ord: "\<forall>xs. set (set_order xs) = set xs"
    and normal: "normal_options set_order (merged_config stg configuration_values) \<noteq> []"
  shows "set (normal_options set_order (merged_config stg configuration_values))
           \<subseteq> set (keys (merged_config stg configuration_values))
    \<and> build_from set_order str_float (Inr p) configuration_values stg (PyList c) =
      Inr (PyList
        (c @ (if hosts stg = [] then [] else [''--hosts='' @ join '','' (hosts stg)])
           @ [''--set'',
              join '','' (map (\<lambda>k. get_key_value_string str_float k
                                     (the (map_of (merged_config stg configuration_values) k)))
                            (normal_options set_order (merged_config stg configuration_values)))]
           @ map (\<lambda>k. ''--'' @ get_key_value_string str_float
                                 (the (map_of command_to_config k))
                                 (the (map_of (merged_config stg configuration_values) k)))
               (special_options set_order (merged_config stg configuration_values))
           @ [''--fabfile='' @ p]))"
  using assms by (rule build_from_on_list)

theorem set_argument_on_list_witness:
  "normal_options (\<lambda>xs. xs) (merged_config scenario_a []) = [''branch'', ''dry_run'']
   \<and> build_from (\<lambda>xs. xs) str_a (Inr ''fabfile.py'') [] scenario_a (PyList []) =
       Inr (PyList [''--set'', ''branch=main,dry_run'', ''--timeout=30.5'',
                    ''--fabfile=fabfile.py''])"
proof -
  have ord: "\<forall>xs. set ((\<lambda>xs. xs) xs) = set xs" by simp
  have n: "normal_options (\<lambda>xs. xs) (merged_config scenario_a []) \<noteq> []"
    by (simp add: normal_a)
  note set_argument_on_list [OF ord n, of str_a "''fabfile.py''" "[]", unfolded normal_a special_a]
  then have "build_from (\<lambda>xs. xs) str_a (Inr ''fabfile.py'') [] scenario_a (PyList []) =
       Inr (PyList [''--set'', ''branch=main,dry_run'', ''--timeout=30.5'',
                    ''--fabfile=fabfile.py''])"
    by (simp add: merged_a hosts_a command_to_config_timeout str_a_def str_replace_char
        dquote_def)
  then show ?thesis by (simp add: normal_a)
qed

text \<open>
  Scenario A against the claim as it stands: the build raises, so no command holds
  \<^verbatim>\<open>--set=branch=main,dry_run\<close>; and on a list the builder appends \<^verbatim>\<open>--set\<close> and the
  joined options as two arguments.
\<close>

theorem scenario_a_counterexample:
  "build_command (\<lambda>xs. xs) str_a settings_a world_a [] deployment_a = Inl no_append
   \<and> \<not> (\<exists>argv. build_command (\<lambda>xs. xs) str_a settings_a world_a [] deployment_a
                  = Inr (PyList argv)
                \<and> ''--set=branch=main,dry_run'' \<in> set argv)
   \<and> \<not> (\<exists>argv. build_from (\<lambda>xs. xs) str_a (Inr ''fabfile.py'') [] scenario_a (PyList [])
                  = Inr (PyList argv)
                \<and> ''--set=branch=main,dry_run'' \<in> set argv)"
  by (simp add: build_command_str scenario_a_on_list)

section \<open>Precedence of the configuration layers\<close>

lemma map_of_setitem: "map_of (setitem d k v) = (map_of d)(k \<mapsto> v)"
  by (induction d) (auto simp: fun_eq_iff)

lemma keys_setitem: "set (keys (setitem d k v)) = insert k (set (keys d))"
proof -
  have "set (keys e) = dom (map_of e)" for e :: "'a dict"
    by (simp add: keys_def dom_map_of_conv_image_fst)
  then show ?thesis by (simp add: map_of_setitem)
qed

lemma distinct_setitem: "distinct (keys d) \<Longrightarrow> distinct (keys (setitem d k v))"
proof (induction d)
  case Nil
  show ?case by (simp add: keys_def)
next
  case (Cons a d)
  obtain k' v' where a: "a = (k', v')" by (cases a)
  from Cons.prems have d: "distinct (keys d)" and n: "k' \<notin> set (keys d)"
    by (simp_all add: keys_def a)
  show ?case
  proof (cases "k' = k")
    case True
    with Cons.prems show ?thesis by (simp add: keys_def a)
  next
    case False
    have "keys (setitem (a # d) k v) = k' # keys (setitem d k v)"
      using False by (simp add: keys_def a)
    with False n Cons.IH [OF d] show ?thesis by (simp add: keys_setitem)
  qed
qed

lemma distinct_update_dict: "distinct (keys d) \<Longrightarrow> distinct (keys (update_dict d other))"
  unfolding update_dict_def
  by (induction other arbitrary: d) (auto simp: distinct_setitem)

lemma distinct_configurations_dict: "distinct (keys (configurations_dict confs))"
proof -
  have "distinct (keys d0) \<Longrightarrow>
        distinct (keys (foldl (\<lambda>d c. setitem d (conf_key c) (conf_value c)) d0 cs))"
    for d0 :: "'a val dict" and cs :: "'a configuration list"
    by (induction cs arbitrary: d0) (auto simp: distinct_setitem)
  from this [of "[]"] show ?thesis by (simp add: configurations_dict_def keys_def)
qed

lemma map_of_update_dict: "map_of (update_dict d other) = map_of d ++ map_of (rev other)"
proof (induction other arbitrary: d)
  case Nil
  show ?case by (simp add: update_dict_def)
next
  case (Cons kv other)
  obtain k v where kv: "kv = (k, v)" by (cases kv)
  have "update_dict d (kv # other) = update_dict (setitem d k v) other"
    by (simp add: update_dict_def kv)
  then show ?case
    by (simp add: Cons.IH map_of_setitem kv map_add_upd_left fun_eq_iff map_add_def split: option.splits)
qed

lemma map_of_rev_distinct: "distinct (map fst xs) \<Longrightarrow> map_of (rev xs) = map_of xs"
proof (rule ext)
  fix k
  assume d: "distinct (map fst xs)"
  then have d': "distinct (map fst (rev xs))" by (simp add: rev_map [symmetric])
  show "map_of (rev xs) k = map_of xs k"
  proof (cases "map_of xs k")
    case None
    have "dom (map_of (rev xs)) = dom (map_of xs)"
      by (simp add: dom_map_of_conv_image_fst)
    with None have "map_of (rev xs) k = None" by (metis domIff)
    with None show ?thesis by simp
  next
    case (Some v)
    then have "(k, v) \<in> set (rev xs)" by (auto dest: map_of_SomeD)
    with d' have "map_of (rev xs) k = Some v" by (rule map_of_is_SomeI)
    with Some show ?thesis by simp
  qed
qed

lemma map_of_configurations_dict:
  "map_of (configurations_dict confs) =
   map_of (rev (map (\<lambda>c. (conf_key c, conf_value c)) (filter (\<lambda>c. \<not> prompt_me_for_input c) confs)))"
proof -
  have "foldl (\<lambda>d c. setitem d (conf_key c) (conf_value c)) d0 cs =
        update_dict d0 (map (\<lambda>c. (conf_key c, conf_value c)) cs)" for d0 :: "'a val dict" and cs :: "'a configuration list"
    by (induction cs arbitrary: d0) (simp_all add: update_dict_def)
  then show ?thesis
    by (simp add: configurations_dict_def map_of_update_dict)
qed

lemma configurations_dict_row:
  assumes "distinct (map conf_key confs)" "c \<in> set confs" "\<not> prompt_me_for_input c"
  shows "map_of (configurations_dict confs) (conf_key c) = Some (conf_value c)"
proof -
  let ?xs = "map (\<lambda>c. (conf_key c, conf_value c)) (filter (\<lambda>c. \<not> prompt_me_for_input c) confs)"
  have "map fst ?xs = map conf_key (filter (\<lambda>c. \<not> prompt_me_for_input c) confs)"
    by (simp add: comp_def)
  with assms(1) have d: "distinct (map fst ?xs)"
    by (simp only: distinct_map_filter)
  have "(conf_key c, conf_value c) \<in> set ?xs" using assms(2,3) by auto
  with d have "map_of ?xs (conf_key c) = Some (conf_value c)" by (rule map_of_is_SomeI)
  then show ?thesis by (simp add: map_of_configurations_dict map_of_rev_distinct [OF d])
qed

text \<open>
  C8. When the keys of the stage's configurations are distinct and the prompted values
  form a dictionary: a stage-level configuration that is not prompted for gives its value
  to \<^verbatim>\<open>get_configurations\<close>, whatever the project configures under the same key, and to
  the merged configuration when no value was prompted for the key; and a prompted value
  is the value of its key in the merged configuration.
\<close>

theorem merged_config_precedence:
  assumes "distinct (map conf_key (stage_configurations stg))"
    and "distinct (keys configuration_values)"
  shows "(\<forall>c \<in> set (stage_configurations stg).
            \<not> prompt_me_for_input c \<longrightarrow>
              map_of (get_configurations stg) (conf_key c) = Some (conf_value c)
              \<and> (map_of configuration_values (conf_key c) = None \<longrightarrow>
                   map_of (merged_config stg configuration_values) (conf_key c)
                     = Some (conf_value c)))
       \<and> (\<forall>k v. map_of configuration_values k = Some v \<longrightarrow>
            map_of (merged_config stg configuration_values) k = Some v)"
proof -
  have cv: "map_of (rev configuration_values) = map_of configuration_values"
    using assms(2) by (simp add: keys_def map_of_rev_distinct)
  have m: "map_of (merged_config stg configuration_values)
             = map_of (get_configurations stg) ++ map_of configuration_values"
    by (simp add: merged_config_def map_of_update_dict cv)
  have s: "map_of (get_configurations stg) (conf_key c) = Some (conf_value c)"
    if "c \<in> set (stage_configurations stg)" "\<not> prompt_me_for_input c" for c
  proof -
    let ?sd = "configurations_dict (stage_configurations stg)"
    have "map_of ?sd (conf_key c) = Some (conf_value c)"
      using assms(1) that by (rule configurations_dict_row)
    moreover have "distinct (map fst ?sd)"
      using distinct_configurations_dict [of "stage_configurations stg"] by (simp add: keys_def)
    ultimately show ?thesis
      by (simp add: get_configurations_def map_of_update_dict map_of_rev_distinct)
  qed
  show ?thesis
    using s by (auto simp: m map_add_def)
qed


theorem merged_config_precedence_witness:
  "map_of (get_configurations stage_b) ''branch'' = Some (VStr ''main'')
   \<and> map_of (merged_config stage_b prompted_b) ''branch'' = Some (VStr ''main'')
   \<and> map_of (merged_config stage_b prompted_b) ''user'' = Some (VStr ''admin'')"
proof -
  let ?c = "\<lparr>conf_key = ''branch'', conf_value = VStr ''main'', prompt_me_for_input = False\<rparr>
              :: real configuration"
  have d1: "distinct (map conf_key (stage_configurations stage_b))"
    by (simp add: stage_b_def)
  have d2: "distinct (keys prompted_b)"
    by (simp add: prompted_b_def keys_def)
  note p = merged_config_precedence [OF d1 d2]
  have c: "?c \<in> set (stage_configurations stage_b)"
    by (simp add: stage_b_def)
  from p have "\<not> prompt_me_for_input ?c \<longrightarrow>
      map_of (get_configurations stage_b) (conf_key ?c) = Some (conf_value ?c)
      \<and> (map_of prompted_b (conf_key ?c) = None \<longrightarrow>
           map_of (merged_config stage_b prompted_b) (conf_key ?c) = Some (conf_value ?c))"
    using c by blast
  then have b: "map_of (get_configurations stage_b) ''branch'' = Some (VStr ''main'')
      \<and> map_of (merged_config stage_b prompted_b) ''branch'' = Some (VStr ''main'')"
    by (simp add: prompted_b_def)
  from p have "map_of prompted_b ''user'' = Some (VStr ''admin'') \<longrightarrow>
      map_of (merged_config stage_b prompted_b) ''user'' = Some (VStr ''admin'')"
    by blast
  then have "map_of (merged_config stage_b prompted_b) ''user'' = Some (VStr ''admin'')"
    by (simp add: prompted_b_def)
  with b show ?thesis by simp
qed

section \<open>The deployment executor\<close>









lemma get_pending_found:
  "get_pending d i = Inr obj \<Longrightarrow> obj \<in> set (deployments d) \<and> pk obj = i \<and> status obj = PENDING"
proof -
  assume a: "get_pending d i = Inr obj"
  then have "filter (\<lambda>x. pk x = i \<and> status x = PENDING) (deployments d) = [obj]"
    by (auto simp: get_pending_def split: list.splits)
  then have "obj \<in> set (filter (\<lambda>x. pk x = i \<and> status x = PENDING) (deployments d))"
    by simp
  then show ?thesis by simp
qed

lemma generator_events:
  "output_stream_generator set_order str_float status_text conf w st obj =
     (if name (task obj)
           \<in> set (keys (fst (get_fabric_tasks conf w (messages st) (project (stage obj)))))
      then on_exception no_append else [])"
  by (simp add: output_stream_generator_def build_command_str)


lemma splitlines_a: "splitlines fab_list_a = [''Available commands:'', [], ''    deploy  Deploy the app'']"
  by (simp add: splitlines_def fab_list_a_def)

lemma match_a: "match_line ''    deploy  Deploy the app'' = Some (''deploy'', ''Deploy the app'')"
  by (simp add: match_line_def is_space_def)

lemma tasks_a:
  "get_fabric_tasks settings_a world_a msgs (project scenario_a) = ([(''deploy'', ''Deploy the app'')], msgs)"
  by (simp add: get_fabric_tasks_def list_tasks_def get_fabfile_path_def and_then_def
      scenario_a_def settings_a_def world_a_def splitlines_a match_a endswith_def)

lemma splitlines_c: "splitlines fab_list_c = [''Available commands:'', [], ''    restart  Restart the app'']"
  by (simp add: splitlines_def fab_list_c_def)

lemma match_c: "match_line ''    restart  Restart the app'' = Some (''restart'', ''Restart the app'')"
  by (simp add: match_line_def is_space_def)

lemma tasks_c:
  "get_fabric_tasks settings_a world_c msgs (project scenario_a) = ([(''restart'', ''Restart the app'')], msgs)"
  by (simp add: get_fabric_tasks_def list_tasks_def get_fabfile_path_def and_then_def
      scenario_a_def settings_a_def world_a_def world_c_def splitlines_c match_c endswith_def)

lemma tasks_b:
  "get_fabric_tasks settings_a world_b msgs (project scenario_a) =
     ([], msgs @ [''Error loading fabfile: [Errno 2] No such file or directory''])"
  by (simp add: get_fabric_tasks_def list_tasks_def get_fabfile_path_def and_then_def
      scenario_a_def settings_a_def world_a_def world_b_def)

lemma pending_a: "get_pending (db state_a) (Suc 0) = Inr deployment_a"
  by (simp add: get_pending_def state_a_def deployment_a_def)

lemma stage_a: "stage deployment_a = scenario_a" "name (task deployment_a) = ''deploy''"
  by (simp_all add: deployment_a_def)

lemma get_a:
  "get set_order str_float status_text settings_a world_a state_a 1 = Inr (on_exception no_append)"
  by (simp add: get_def and_then_def pending_a generator_events stage_a tasks_a keys_def)

lemma get_c:
  "get set_order str_float status_text settings_a world_c state_a 1 = Inr []"
  by (simp add: get_def and_then_def pending_a generator_events stage_a tasks_c keys_def)






lemma absent_task_run:
  assumes "get_pending (db st) i = Inr obj"
    and "name (task obj)
           \<notin> set (keys (fst (get_fabric_tasks conf w (messages st) (project (stage obj)))))"
  shows "get set_order str_float status_text conf w st i = Inr []"
  using assms by (simp add: get_def and_then_def generator_events)

text \<open>
  C6, as the code has it. When the task of a pending deployment is absent from the catalog
  that is looked up at the start of the run, the run ends at once: no subprocess is
  spawned, nothing is yielded, nothing is saved, and the deployment stays \<^verbatim>\<open>PENDING\<close>.
\<close>

theorem absent_task_stays_pending:
  assumes "get_pending (db st) i = Inr obj"
    and "name (task obj)
           \<notin> set (keys (fst (get_fabric_tasks conf w (messages st) (project (stage obj)))))"
  shows "status obj = PENDING
     \<and> get set_order str_float status_text conf w st i = Inr []
     \<and> (\<forall>evs. get set_order str_float status_text conf w st i = Inr evs \<longrightarrow>
           spawns evs = [] \<and> yields evs = [] \<and> saves evs = []
           \<and> db_after (db st) evs = db st)"
  using absent_task_run [OF assms] get_pending_found [OF assms(1)]
  by (simp add: spawns_def yields_def saves_def)

theorem absent_task_stays_pending_witness:
  "get (\<lambda>xs. xs) str_a status_a settings_a world_b state_a 1 = Inr []
   \<and> status deployment_a = PENDING
   \<and> deployments (db_after (db state_a) ([] :: real event list)) = [deployment_a]"
proof -
  have p: "get_pending (db state_a) 1 = Inr deployment_a"
    by (simp add: pending_a)
  have n: "name (task deployment_a)
           \<notin> set (keys (fst (get_fabric_tasks settings_a world_b (messages state_a)
                                  (project (stage deployment_a)))))"
    by (simp add: stage_a tasks_b keys_def)
  from absent_task_stays_pending [OF p n, of "\<lambda>xs. xs" str_a status_a]
  show ?thesis by (simp add: state_a_def)
qed

text \<open>
  Scenario C against the claim as it stands: the task \<^verbatim>\<open>deploy\<close> is gone from the catalog,
  the run does nothing, and the deployment is \<^verbatim>\<open>PENDING\<close> afterwards, not \<^verbatim>\<open>FAILED\<close>.
\<close>

theorem scenario_c_counterexample:
  "''deploy'' \<notin> set (keys (fst (get_fabric_tasks settings_a world_c [] (project scenario_a))))
   \<and> name (task deployment_a) = ''deploy''
   \<and> get (\<lambda>xs. xs) str_a status_a settings_a world_c state_a 1 = Inr []
   \<and> map status (deployments (db_after (db state_a) ([] :: real event list))) = [PENDING]
   \<and> \<not> (\<exists>evs. get (\<lambda>xs. xs) str_a status_a settings_a world_c state_a 1 = Inr evs
            \<and> FAILED \<in> set (map status (deployments (db_after (db state_a) evs))))"
proof -
  have g: "get (\<lambda>xs. xs) str_a status_a settings_a world_c state_a 1 = Inr []"
    by (rule get_c)
  have d: "map status (deployments (db_after (db state_a) ([] :: real event list))) = [PENDING]"
    by (simp add: state_a_def deployment_a_def)
  have n: "\<not> (\<exists>evs. get (\<lambda>xs. xs) str_a status_a settings_a world_c state_a 1 = Inr evs
            \<and> FAILED \<in> set (map status (deployments (db_after (db state_a) evs))))"
  proof
    assume "\<exists>evs. get (\<lambda>xs. xs) str_a status_a settings_a world_c state_a 1 = Inr evs
            \<and> FAILED \<in> set (map status (deployments (db_after (db state_a) evs)))"
    then obtain evs where e: "get (\<lambda>xs. xs) str_a status_a settings_a world_c state_a 1 = Inr evs"
      and f: "FAILED \<in> set (map status (deployments (db_after (db state_a) evs)))"
      by blast
    from e g have "evs = []" by simp
    with f have "FAILED \<in> set (map status (deployments (db_after (db state_a)
                                      ([] :: real event list))))"
      by simp
    then have "FAILED \<in> set [PENDING]" by (simp only: d)
    then show False by simp
  qed
  have t: "''deploy'' \<notin> set (keys (fst (get_fabric_tasks settings_a world_c []
                                         (project scenario_a))))"
    by (simp add: tasks_c keys_def)
  from g d n t show ?thesis by (simp add: stage_a)
qed

section \<open>Padding of the streamed units\<close>

lemma length_padding: "length padding = 1024"
  by (simp add: padding_def)

lemma endswith_append: "endswith (a @ b @ c @ d) d"
  by (simp add: endswith_def)

lemma line_unit_padded: "endswith (line_unit l) padding"
  unfolding line_unit_def by (rule endswith_append)

lemma finished_unit_padded: "endswith (finished_unit s) padding"
  unfolding finished_unit_def by (rule endswith_append)

lemma failed_unit_text:
  \<open>failed_unit = ''<span id="finished" style="display:none;">failed</span> *1024''\<close>
  by (simp add: failed_unit_def)

lemma failed_unit_short: "length failed_unit = 61"
  by (simp add: failed_unit_def)

text \<open>
  C10 on the code. A run whose task is in the catalog takes the exceptional path (the
  build raises): it yields one diagnostic line and one failure sentinel. Every output line
  and every status sentinel ends with the 1024 blanks of the padding. The failure sentinel
  does not: line 436 formats the text \<^verbatim>\<open>*1024\<close> into it, so that it ends with one blank
  and these five characters. A read that raises gives the same two units.
\<close>

theorem failure_sentinel_not_padded:
  "get (\<lambda>xs. xs) str_a status_a settings_a world_a state_a 1
     = Inr [Yield (line_unit (''An error occurred: '' @ message no_append)), Yield failed_unit]
   \<and> endswith (line_unit l) padding
   \<and> endswith (finished_unit s) padding
   \<and> length padding = 1024 \<and> set padding = {CHR '' ''}
   \<and> \<not> endswith failed_unit padding
   \<and> takeWhile is_space (rev failed_unit) = []
   \<and> endswith failed_unit '' *1024''
   \<and> stream_process status_text ((Inl e, p) # rest) obj
       = [Yield (line_unit (''An error occurred: '' @ message e)), Yield failed_unit]"
proof -
  have r: "stream_process status_text ((Inl e, p) # rest) obj
       = [Yield (line_unit (''An error occurred: '' @ message e)), Yield failed_unit]"
    by (simp add: stream_process_def on_exception_def)
  have g: "get (\<lambda>xs. xs) str_a status_a settings_a world_a state_a 1
     = Inr [Yield (line_unit (''An error occurred: '' @ message no_append)), Yield failed_unit]"
    unfolding on_exception_def [symmetric] by (rule get_a)
  have sp: "set padding = {CHR '' ''}"
    by (simp add: padding_def)
  have n: "\<not> endswith failed_unit padding"
    by (simp add: endswith_def length_padding failed_unit_short)
  have t: "takeWhile is_space (rev failed_unit) = []" "endswith failed_unit '' *1024''"
    by (simp_all add: failed_unit_def is_space_def endswith_def)
  from g sp n t r show ?thesis
    by (simp add: line_unit_padded finished_unit_padded length_padding)
qed

section \<open>Failure of the task catalog and rejected creations\<close>

lemma get_fabric_tasks_failed:
  "list_tasks conf w p = Inl e \<Longrightarrow>
   get_fabric_tasks conf w msgs p = ([], msgs @ [''Error loading fabfile: '' @ str_error e])"
  by (simp add: get_fabric_tasks_def)

lemma clone_failure:
  "use_repo_fabfile p \<Longrightarrow> \<not> repo_dir_exists w \<Longrightarrow> makedirs w = None \<Longrightarrow> clone_from w = Some e \<Longrightarrow>
   get_fabfile_path conf w p = Inl e"
  by (simp add: get_fabfile_path_def and_then_def raising_def)

lemma dispatch_rejects:
  assumes "get_stage (db st) i = Inr stg"
    and "task_name \<notin> set (keys (fst (get_fabric_tasks conf w (messages st) (project stg))))"
  shows "\<exists>st'. dispatch baseline conf w st i task_name usr req = Inr (Redirect_stage_view, st')
            \<and> db st' = db st"
proof -
  obtain all_tasks msgs where g: "get_fabric_tasks conf w (messages st) (project stg) = (all_tasks, msgs)"
    by (metis surj_pair)
  with assms(2) have "map_of all_tasks task_name = None"
    by (simp add: keys_def map_of_eq_None_iff)
  with assms(1) g show ?thesis
    by (simp add: dispatch_def and_then_def)
qed

text \<open>
  C7. Whatever raises while the tasks are listed, \<^verbatim>\<open>get_fabric_tasks\<close> returns the empty
  mapping and adds an error message to the request; it returns, it does not raise. A
  failing clone and a failing \<^verbatim>\<open>fab --list\<close> (the binary is missing) are such failures.
  A request to create a deployment whose task name is not in the mapping is redirected
  to the stage, and the database is as before: no deployment is stored. So after a failed
  listing every creation is rejected.
\<close>

theorem catalog_failure_and_rejection:
  "(list_tasks conf w p = Inl e \<longrightarrow>
      get_fabric_tasks conf w msgs p = ([], msgs @ [''Error loading fabfile: '' @ str_error e]))
   \<and> (use_repo_fabfile p \<and> \<not> repo_dir_exists w \<and> makedirs w = None \<and> clone_from w = Some e \<longrightarrow>
        list_tasks conf w p = Inl e)
   \<and> (get_fabfile_path conf w p = Inr path
        \<and> check_output w [''fab'', ''--list'', ''--fabfile='' @ path] = Inl e \<longrightarrow>
        list_tasks conf w p = Inl e)
   \<and> (get_stage (db st) i = Inr stg
        \<and> task_name \<notin> set (keys (fst (get_fabric_tasks conf w (messages st) (project stg)))) \<longrightarrow>
        (\<exists>st'. dispatch baseline conf w st i task_name usr req = Inr (Redirect_stage_view, st')
               \<and> db st' = db st))
   \<and> (get_stage (db st) i = Inr stg \<and> list_tasks conf w (project stg) = Inl e \<longrightarrow>
        (\<exists>st'. dispatch baseline conf w st i task_name usr req = Inr (Redirect_stage_view, st')
               \<and> db st' = db st))"
proof (intro conjI impI)
  assume "list_tasks conf w p = Inl e"
  then show "get_fabric_tasks conf w msgs p = ([], msgs @ [''Error loading fabfile: '' @ str_error e])"
    by (rule get_fabric_tasks_failed)
next
  assume "use_repo_fabfile p \<and> \<not> repo_dir_exists w \<and> makedirs w = None \<and> clone_from w = Some e"
  then have "get_fabfile_path conf w p = Inl e" by (simp add: clone_failure)
  then show "list_tasks conf w p = Inl e" by (simp add: list_tasks_def and_then_def)
next
  assume "get_fabfile_path conf w p = Inr path
        \<and> check_output w [''fab'', ''--list'', ''--fabfile='' @ path] = Inl e"
  then show "list_tasks conf w p = Inl e" by (simp add: list_tasks_def and_then_def)
next
  assume "get_stage (db st) i = Inr stg
        \<and> task_name \<notin> set (keys (fst (get_fabric_tasks conf w (messages st) (project stg))))"
  then show "\<exists>st'. dispatch baseline conf w st i task_name usr req = Inr (Redirect_stage_view, st')
               \<and> db st' = db st"
    by (simp add: dispatch_rejects)
next
  assume a: "get_stage (db st) i = Inr stg \<and> list_tasks conf w (project stg) = Inl e"
  then have "task_name \<notin> set (keys (fst (get_fabric_tasks conf w (messages st) (project stg))))"
    by (simp add: get_fabric_tasks_failed keys_def)
  with a show "\<exists>st'. dispatch baseline conf w st i task_name usr req = Inr (Redirect_stage_view, st')
               \<and> db st' = db st"
    by (simp add: dispatch_rejects)
qed

lemma get_stage_a: "get_stage (db state_a) (Suc 0) = Inr scenario_a"
  by (simp add: get_stage_def state_a_def scenario_a_def)

lemma list_tasks_b:
  "list_tasks settings_a world_b (project scenario_a)
     = Inl (External ''[Errno 2] No such file or directory'' [])"
  by (simp add: list_tasks_def get_fabfile_path_def and_then_def
      scenario_a_def settings_a_def world_a_def world_b_def)

theorem catalog_failure_and_rejection_witness:
  "get_fabric_tasks settings_a world_b [] (project scenario_a)
     = ([], [''Error loading fabfile: [Errno 2] No such file or directory''])
   \<and> list_tasks settings_a
        (world_a\<lparr>repo_dir_exists := False, clone_from := Some (External ''clone failed'' [])\<rparr>)
        (\<lparr>use_repo_fabfile = True, project_configurations = []\<rparr> :: real project)
       = Inl (External ''clone failed'' [])
   \<and> (\<exists>st'. dispatch 1 settings_a world_b state_a 1 ''deploy'' ''admin'' (POST (Some []))
               = Inr (Redirect_stage_view, st')
          \<and> db st' = db state_a)
   \<and> (\<exists>st'. dispatch 1 settings_a world_c state_a 1 ''deploy'' ''admin'' (POST (Some []))
               = Inr (Redirect_stage_view, st')
          \<and> db st' = db state_a)"
proof -
  let ?e = "External ''[Errno 2] No such file or directory'' []"
  let ?w = "world_a\<lparr>repo_dir_exists := False, clone_from := Some (External ''clone failed'' [])\<rparr>"
  let ?p = "\<lparr>use_repo_fabfile = True, project_configurations = []\<rparr> :: real project"
  have s: "get_stage (db state_a) 1 = Inr scenario_a"
    by (simp add: get_stage_a)
  have l: "list_tasks settings_a world_b (project scenario_a) = Inl ?e"
    by (rule list_tasks_b)
  have c: "use_repo_fabfile ?p \<and> \<not> repo_dir_exists ?w \<and> makedirs ?w = None
           \<and> clone_from ?w = Some (External ''clone failed'' [])"
    by (simp add: world_a_def)
  have n: "''deploy'' \<notin> set (keys (fst (get_fabric_tasks settings_a world_c (messages state_a)
                                         (project scenario_a))))"
    by (simp add: tasks_c keys_def)
  note t1 = catalog_failure_and_rejection
      [of settings_a world_b "project scenario_a" ?e "[]" "''fabfile.py''" state_a 1 scenario_a
          "''deploy''" 1 "''admin''" "POST (Some [])"]
  note t2 = catalog_failure_and_rejection
      [of settings_a ?w ?p "External ''clone failed'' []" "[]" "''fabfile.py''" state_a 1
          scenario_a "''deploy''" 1 "''admin''" "POST (Some [])"]
  note t3 = catalog_failure_and_rejection
      [of settings_a world_c "project scenario_a" ?e "[]" "''fabfile.py''" state_a 1 scenario_a
          "''deploy''" 1 "''admin''" "POST (Some [])"]
  from t1 l s have a: "get_fabric_tasks settings_a world_b [] (project scenario_a)
        = ([], [] @ [''Error loading fabfile: '' @ str_error ?e])"
    and b: "\<exists>st'. dispatch 1 settings_a world_b state_a 1 ''deploy'' ''admin'' (POST (Some []))
               = Inr (Redirect_stage_view, st') \<and> db st' = db state_a"
    by blast+
  from t2 c have d: "list_tasks settings_a ?w ?p = Inl (External ''clone failed'' [])"
    by blast
  from t3 s n have e: "\<exists>st'. dispatch 1 settings_a world_c state_a 1 ''deploy'' ''admin'' (POST (Some []))
               = Inr (Redirect_stage_view, st') \<and> db st' = db state_a"
    by blast
  from a b d e show ?thesis by simp
qed

section \<open>The task of a deployment\<close>

lemma fold_max_ge: "a \<le> fold max pks (a :: nat)"
proof (induction pks arbitrary: a)
  case Nil
  show ?case by simp
next
  case (Cons p pks)
  have "a \<le> max p a" by simp
  also have "max p a \<le> fold max pks (max p a)" by (rule Cons.IH)
  finally show ?case by simp
qed

lemma fold_max_member: "x \<in> set pks \<Longrightarrow> x \<le> fold max pks (a :: nat)"
proof (induction pks arbitrary: a)
  case Nil
  then show ?case by simp
next
  case (Cons p pks)
  show ?case
  proof (cases "x = p")
    case True
    have "p \<le> max p a" by simp
    also have "max p a \<le> fold max pks (max p a)" by (rule fold_max_ge)
    finally show ?thesis using True by simp
  next
    case False
    with Cons.prems have "x \<in> set pks" by simp
    then show ?thesis by (simp add: Cons.IH)
  qed
qed

lemma fresh_pk_new: "fresh_pk pks \<notin> set pks"
proof
  assume "fresh_pk pks \<in> set pks"
  then have "fresh_pk pks \<le> fold max pks 0" by (rule fold_max_member)
  then show False by (simp add: fresh_pk_def)
qed

lemma filter_by_name:
  "distinct (map name ts) \<Longrightarrow>
   filter (\<lambda>x. name x = n) ts = (case find (\<lambda>x. name x = n) ts of None \<Rightarrow> [] | Some old \<Rightarrow> [old])"
proof (induction ts)
  case Nil
  show ?case by simp
next
  case (Cons t ts)
  show ?case
  proof (cases "name t = n")
    case True
    from Cons.prems have "name t \<notin> set (map name ts)" by simp
    have "\<forall>x \<in> set ts. name x \<noteq> n"
    proof
      fix x assume "x \<in> set ts"
      then have "name x \<in> set (map name ts)" by simp
      with \<open>name t \<notin> set (map name ts)\<close> True show "name x \<noteq> n" by metis
    qed
    then have "filter (\<lambda>x. name x = n) ts = []" by (simp add: filter_empty_conv)
    with True show ?thesis by simp
  next
    case False
    with Cons show ?thesis by simp
  qed
qed

lemma find_None_names: "find (\<lambda>x. name x = n) ts = None \<Longrightarrow> n \<notin> set (map name ts)"
  by (auto simp: find_None_iff)

lemma find_Some_member: "find P ts = Some old \<Longrightarrow> old \<in> set ts \<and> P old"
  by (auto simp: find_Some_iff)

lemma replace_by_pk:
  assumes "distinct (map task_pk ts)" "old \<in> set ts" "task_pk new = task_pk old"
  shows "map (\<lambda>x. if task_pk x = task_pk new then new else x) ts
         = map (\<lambda>x. if x = old then new else x) ts"
proof (rule map_cong [OF refl])
  fix x assume "x \<in> set ts"
  with assms have "task_pk x = task_pk old \<longleftrightarrow> x = old"
    by (auto simp: distinct_map inj_on_def)
  with assms(3) show "(if task_pk x = task_pk new then new else x) = (if x = old then new else x)"
    by simp
qed

lemma upsert_new:
  assumes "find (\<lambda>x. name x = n) ts = None"
  shows "upsert_task baseline ts n d =
     Inr (\<lparr>task_pk = fresh_pk (map task_pk ts), name = n, description = d, times_used = baseline\<rparr>,
          ts @ [\<lparr>task_pk = fresh_pk (map task_pk ts), name = n, description = d,
                  times_used = baseline\<rparr>])"
proof -
  from assms have "filter (\<lambda>x. name x = n) ts = []"
    by (auto simp: find_None_iff filter_empty_conv)
  then show ?thesis
    by (simp add: upsert_task_def get_or_create_def and_then_def Let_def)
qed

lemma upsert_old:
  assumes "distinct (map name ts)" "distinct (map task_pk ts)"
    and "find (\<lambda>x. name x = n) ts = Some old"
  shows "upsert_task baseline ts n d =
     Inr (old\<lparr>times_used := times_used old + 1, description := d\<rparr>,
          map (\<lambda>x. if x = old then old\<lparr>times_used := times_used old + 1, description := d\<rparr>
                    else x) ts)"
proof -
  let ?new = "old\<lparr>times_used := times_used old + 1, description := d\<rparr>"
  from assms(1,3) have f: "filter (\<lambda>x. name x = n) ts = [old]"
    by (simp add: filter_by_name)
  from assms(3) have m: "old \<in> set ts" by (auto dest: find_Some_member)
  have "save_task ts ?new = map (\<lambda>x. if x = old then ?new else x) ts"
    unfolding save_task_def using assms(2) m by (rule replace_by_pk) simp
  with f show ?thesis
    by (simp add: upsert_task_def get_or_create_def and_then_def Let_def)
qed

text \<open>
  C9. On a task table with distinct names and distinct keys: for a name that is not in the
  table, \<^verbatim>\<open>form_valid\<close> adds a task with the name, the description that was looked up
  and the baseline of \<^verbatim>\<open>times_used\<close>; for a name that is in the table, it replaces that
  task, and no other, by the task with \<^verbatim>\<open>times_used\<close> one higher and the new description.
  The update never fails and leaves names and keys distinct, so it holds for every later
  deployment again. The task is the task of the new deployment, which is \<^verbatim>\<open>PENDING\<close>.
\<close>

theorem task_upsert:
  assumes "distinct (map name ts)" and "distinct (map task_pk ts)"
  shows "(find (\<lambda>x. name x = n) ts = None \<longrightarrow>
            (\<exists>t. upsert_task baseline ts n d = Inr (t, ts @ [t])
                 \<and> name t = n \<and> description t = d \<and> times_used t = baseline))
     \<and> (\<forall>old. find (\<lambda>x. name x = n) ts = Some old \<longrightarrow>
           (\<exists>t. upsert_task baseline ts n d = Inr (t, map (\<lambda>x. if x = old then t else x) ts)
                \<and> task_pk t = task_pk old \<and> name t = n \<and> description t = d
                \<and> times_used t = times_used old + 1))
     \<and> (\<exists>t ts'. upsert_task baseline ts n d = Inr (t, ts') \<and> t \<in> set ts'
           \<and> distinct (map name ts') \<and> distinct (map task_pk ts'))
     \<and> (\<forall>r st'. tasks (db st) = ts \<and>
           form_valid baseline st stg n d usr cleaned_data = Inr (r, st') \<longrightarrow>
           (\<exists>t obj. upsert_task baseline ts n d = Inr (t, tasks (db st'))
              \<and> deployments (db st') = deployments (db st) @ [obj]
              \<and> task obj = t \<and> status obj = PENDING))"
proof (intro conjI impI allI)
  assume "find (\<lambda>x. name x = n) ts = None"
  from upsert_new [OF this, of baseline d]
  show "\<exists>t. upsert_task baseline ts n d = Inr (t, ts @ [t])
                 \<and> name t = n \<and> description t = d \<and> times_used t = baseline"
    by simp
next
  fix old assume f: "find (\<lambda>x. name x = n) ts = Some old"
  then have "name old = n" by (auto dest: find_Some_member)
  with upsert_old [OF assms f, of baseline d]
  show "\<exists>t. upsert_task baseline ts n d = Inr (t, map (\<lambda>x. if x = old then t else x) ts)
                \<and> task_pk t = task_pk old \<and> name t = n \<and> description t = d
                \<and> times_used t = times_used old + 1"
    by simp
next
  show "\<exists>t ts'. upsert_task baseline ts n d = Inr (t, ts') \<and> t \<in> set ts'
           \<and> distinct (map name ts') \<and> distinct (map task_pk ts')"
  proof (cases "find (\<lambda>x. name x = n) ts")
    case None
    let ?t = "\<lparr>task_pk = fresh_pk (map task_pk ts), name = n, description = d,
                times_used = baseline\<rparr>"
    have "distinct (map name (ts @ [?t]))"
      using assms(1) find_None_names [OF None] by simp
    moreover have "distinct (map task_pk (ts @ [?t]))"
      using assms(2) fresh_pk_new [of "map task_pk ts"] by simp
    ultimately show ?thesis using upsert_new [OF None, of baseline d] by simp
  next
    case (Some old)
    let ?t = "old\<lparr>times_used := times_used old + 1, description := d\<rparr>"
    let ?ts = "map (\<lambda>x. if x = old then ?t else x) ts"
    from Some have m: "old \<in> set ts" by (auto dest: find_Some_member)
    have n: "map name ?ts = map name ts" by (induction ts) auto
    have k: "map task_pk ?ts = map task_pk ts" by (induction ts) auto
    have dn: "distinct (map name ?ts)" using assms(1) by (simp only: n)
    have dk: "distinct (map task_pk ?ts)" using assms(2) by (simp only: k)
    have "\<exists>x \<in> set ts. ?t = (if x = old then ?t else x)" using m by (intro bexI [of _ old]) simp_all
    then have mem: "?t \<in> set ?ts" by (simp only: set_map image_iff)
    from upsert_old [OF assms Some, of baseline d] dn dk mem show ?thesis by blast
  qed
next
  fix r st'
  assume a: "tasks (db st) = ts \<and> form_valid baseline st stg n d usr cleaned_data = Inr (r, st')"
  then obtain t ts' where u: "upsert_task baseline ts n d = Inr (t, ts')"
    by (auto simp: form_valid_def and_then_def split: sum.splits)
  with a show "\<exists>t obj. upsert_task baseline ts n d = Inr (t, tasks (db st'))
              \<and> deployments (db st') = deployments (db st) @ [obj]
              \<and> task obj = t \<and> status obj = PENDING"
    by (auto simp: form_valid_def and_then_def Let_def)
qed


lemma form_valid_a:
  "form_valid 1 state_a scenario_a ''deploy'' ''Deploy again'' ''admin'' [] =
     Inr (Redirect_deployment_detail 2,
          state_a\<lparr>db := (db state_a)
                    \<lparr>tasks := [(task deployment_a)\<lparr>times_used := 2, description := ''Deploy again''\<rparr>],
                     deployments := [deployment_a,
                        \<lparr>pk = 2, status = PENDING, dep_output = None,
                         task = (task deployment_a)\<lparr>times_used := 2, description := ''Deploy again''\<rparr>,
                         stage = scenario_a, user = ''admin''\<rparr>]\<rparr>,
                  session := []\<rparr>)"
  by (simp add: form_valid_def upsert_task_def get_or_create_def save_task_def and_then_def
      state_a_def deployment_a_def fresh_pk_def Let_def)

theorem task_upsert_witness:
  "(\<exists>t. upsert_task 1 [] ''deploy'' ''Deploy the app'' = Inr (t, [t])
        \<and> name t = ''deploy'' \<and> description t = ''Deploy the app'' \<and> times_used t = 1)
   \<and> (\<exists>t. upsert_task 1 [task deployment_a] ''deploy'' ''Deploy again'' = Inr (t, [t])
        \<and> description t = ''Deploy again'' \<and> times_used t = 2)
   \<and> (\<exists>r st' t obj. form_valid 1 state_a scenario_a ''deploy'' ''Deploy again'' ''admin'' []
                        = Inr (r, st')
        \<and> upsert_task 1 (tasks (db state_a)) ''deploy'' ''Deploy again''
            = Inr (t, tasks (db st'))
        \<and> deployments (db st') = deployments (db state_a) @ [obj]
        \<and> task obj = t \<and> status obj = PENDING)"
proof -
  let ?old = "task deployment_a"
  have d0: "distinct (map name ([] :: task list))" "distinct (map task_pk ([] :: task list))"
    by simp_all
  have f0: "find (\<lambda>x. name x = ''deploy'') ([] :: task list) = None"
    by simp
  have d1: "distinct (map name [?old])" "distinct (map task_pk [?old])"
    by simp_all
  have f1: "find (\<lambda>x. name x = ''deploy'') [?old] = Some ?old"
    by (simp add: deployment_a_def)
  have t1: "times_used ?old = 1"
    by (simp add: deployment_a_def)
  have ts: "tasks (db state_a) = [?old]"
    by (simp add: state_a_def)
  from task_upsert [OF d0, of "''deploy''" 1 "''Deploy the app''"] f0
  have a: "\<exists>t. upsert_task 1 [] ''deploy'' ''Deploy the app'' = Inr (t, [] @ [t])
        \<and> name t = ''deploy'' \<and> description t = ''Deploy the app'' \<and> times_used t = 1"
    by blast
  note u = task_upsert [OF d1, of "''deploy''" 1 "''Deploy again''" state_a scenario_a
      "''admin''" "[]"]
  from u f1
  have "\<exists>t. upsert_task 1 [?old] ''deploy'' ''Deploy again''
              = Inr (t, map (\<lambda>x. if x = ?old then t else x) [?old])
        \<and> task_pk t = task_pk ?old \<and> name t = ''deploy'' \<and> description t = ''Deploy again''
        \<and> times_used t = times_used ?old + 1"
    by blast
  then have b: "\<exists>t. upsert_task 1 [?old] ''deploy'' ''Deploy again'' = Inr (t, [t])
        \<and> description t = ''Deploy again'' \<and> times_used t = 2"
    by (auto simp: t1 numeral_2_eq_2)
  from u ts form_valid_a
  have c: "\<exists>t obj. upsert_task 1 [?old] ''deploy'' ''Deploy again''
              = Inr (t, tasks (db (state_a\<lparr>db := (db state_a)
                    \<lparr>tasks := [(task deployment_a)\<lparr>times_used := 2, description := ''Deploy again''\<rparr>],
                     deployments := [deployment_a,
                        \<lparr>pk = 2, status = PENDING, dep_output = None,
                         task = (task deployment_a)\<lparr>times_used := 2, description := ''Deploy again''\<rparr>,
                         stage = scenario_a, user = ''admin''\<rparr>]\<rparr>,
                  session := []\<rparr>)))
        \<and> deployments (db (state_a\<lparr>db := (db state_a)
                    \<lparr>tasks := [(task deployment_a)\<lparr>times_used := 2, description := ''Deploy again''\<rparr>],
                     deployments := [deployment_a,
                        \<lparr>pk = 2, status = PENDING, dep_output = None,
                         task = (task deployment_a)\<lparr>times_used := 2, description := ''Deploy again''\<rparr>,
                         stage = scenario_a, user = ''admin''\<rparr>]\<rparr>,
                  session := []\<rparr>)) = deployments (db state_a) @ [obj]
        \<and> task obj = t \<and> status obj = PENDING"
    by blast
  from a have a': "\<exists>t. upsert_task 1 [] ''deploy'' ''Deploy the app'' = Inr (t, [t])
        \<and> name t = ''deploy'' \<and> description t = ''Deploy the app'' \<and> times_used t = 1"
    by simp
  from c form_valid_a ts have c': "\<exists>r st' t obj.
        form_valid 1 state_a scenario_a ''deploy'' ''Deploy again'' ''admin'' [] = Inr (r, st')
        \<and> upsert_task 1 (tasks (db state_a)) ''deploy'' ''Deploy again''
            = Inr (t, tasks (db st'))
        \<and> deployments (db st') = deployments (db state_a) @ [obj]
        \<and> task obj = t \<and> status obj = PENDING"
    by (metis (no_types))
  from a' b c' show ?thesis by blast
qed

end
